theory Spec2Isabelle
  imports Complex_Main
begin

section \<open>Numbers\<close>

text \<open>
  The counters of the program (array lengths, row counts, millisecond clock readings) are
  integers, exact in the program as long as they stay below \<open>2^53\<close>. Measured sizes
  and durations are doubles: a finite double is the rational it denotes, and every
  addition and division of the program returns the exact result rounded to the nearest
  double, ties to the even mantissa (IEEE 754 binary64, 53 bits of mantissa, subnormals
  below \<open>2^-1022\<close>). Results beyond the largest double are not modelled. The three
  non-finite results of a division by zero are values of their own.
\<close>

definition pow2 :: "int \<Rightarrow> rat" where
  "pow2 e = (if 0 \<le> e then 2 ^ nat e else 1 / 2 ^ nat (- e))"

function bit_length :: "int \<Rightarrow> nat" where
  "bit_length n = (if n \<le> 0 then 0 else Suc (bit_length (n div 2)))"
  by pat_completeness auto
termination
  by (relation "measure nat") auto

declare bit_length.simps [simp del]

definition exponent :: "rat \<Rightarrow> int" where
  "exponent a =
     (let e0 = int (bit_length (fst (quotient_of a))) - int (bit_length (snd (quotient_of a)))
      in if pow2 e0 \<le> a then e0 else e0 - 1)"

definition round_half_even :: "rat \<Rightarrow> int" where
  "round_half_even x =
     (let n = \<lfloor>x\<rfloor>; r = x - of_int n
      in if r < 1 / 2 then n else if 1 / 2 < r then n + 1 else if even n then n else n + 1)"

definition binary64 :: "rat \<Rightarrow> rat" where
  "binary64 x =
     (if x = 0 then 0
      else (let a = \<bar>x\<bar>;
                q = max (exponent a - 52) (- 1074);
                m = round_half_even (a / pow2 q)
            in (if x < 0 then - 1 else 1) * of_int m * pow2 q))"

datatype jsnum = Fin rat | PosInfinity | NegInfinity | NaN

definition js_div :: "rat \<Rightarrow> rat \<Rightarrow> jsnum" where
  "js_div a b =
     (if b = 0 then (if a = 0 then NaN else if 0 < a then PosInfinity else NegInfinity)
      else Fin (binary64 (a / b)))"

section \<open>Data model (types.ts)\<close>

record BenchmarkConfig =
  minWorkers :: int
  connectionsPerWorker :: int
  batchSize :: int
  dataSizeMB :: int

record FileGenerationResult =
  gen_workerId :: nat
  gen_connectionId :: nat
  gen_filePath :: string
  recordsGenerated :: int
  fileSizeMB :: rat
  generationTimeMs :: int
  gen_success :: bool
  gen_error :: "string option"

record CopyExecutionResult =
  copy_workerId :: nat
  copy_connectionId :: nat
  copy_filePath :: string
  recordsInserted :: int
  copy_dataSizeMB :: rat
  executionTimeMs :: int
  copy_success :: bool
  copy_error :: "string option"

record BenchmarkResult =
  timestamp :: string
  workers :: int
  res_connectionsPerWorker :: int
  totalConnections :: nat
  res_batchSize :: int
  duration :: rat
  totalRecords :: int
  totalDataSizeMB :: rat
  throughputMBps :: jsnum
  throughputRecordsPerSecond :: jsnum
  avgLatencyMs :: rat
  p50LatencyMs :: rat
  p95LatencyMs :: rat
  p99LatencyMs :: rat
  minLatencyMs :: rat
  maxLatencyMs :: rat
  successCount :: nat
  errorCount :: nat
  successRate :: jsnum
  errors :: "string list"

section \<open>The two-stage coordinator (two-stage-benchmark.ts)\<close>

text \<open>
  A worker promise either resolves with a typed result or rejects (the worker thread
  crashed or exited with a non-zero code); \<open>Inl\<close> carries the rejection message.
  The two worker entry points and the readings of the clock are the environment of a run.
  Configuration numbers are the integers \<open>parseInt\<close> delivers. Console output is left
  out.
\<close>

type_synonym 'a promise = "string + 'a"

record environment =
  runFileGeneration :: "nat \<Rightarrow> nat \<Rightarrow> int \<Rightarrow> FileGenerationResult promise"
  runCopyExecution :: "nat \<Rightarrow> nat \<Rightarrow> string \<Rightarrow> CopyExecutionResult promise"
  overallStartTime :: int
  generationStartTime :: int
  generationEndTime :: int
  copyStartTime :: int
  copyEndTime :: int
  overallEndTime :: int
  now_iso :: string

datatype run_error = NoCsvFiles | Rejected string

text \<open>
  What the coordinator does to the outside world, in program order: a call of
  \<open>runCopyExecution\<close> on an artifact, a join on the promises of one batch
  (\<open>await Promise.all(batchPromises)\<close>), and the final cleanup of the staged files.
\<close>

datatype event =
    CopyStart nat nat string
  | AwaitBatch nat
  | CleanupFiles "string list"

text \<open>
  \<open>Promise.all\<close> resolves with all results in order, or rejects; of several rejections
  the model reports the first in list order.
\<close>

fun promise_all :: "'a promise list \<Rightarrow> 'a list promise" where
  "promise_all [] = Inr []"
| "promise_all (Inl e # ps) = Inl e"
| "promise_all (Inr x # ps) = (case promise_all ps of Inl e \<Rightarrow> Inl e | Inr xs \<Rightarrow> Inr (x # xs))"

definition generation_pairs :: "BenchmarkConfig \<Rightarrow> (nat \<times> nat) list" where
  "generation_pairs config =
     concat (map (\<lambda>workerId. map (\<lambda>connectionId. (workerId, connectionId))
                                 [0 ..< nat (connectionsPerWorker config)])
                 [0 ..< nat (minWorkers config)])"

text \<open>
  \<open>recordsPerConnection\<close> is a floor of a quotient. When the number of connections is
  zero the quotient is not finite in the program; no generation unit is started in that
  case and the run fails before the value is used.
\<close>

definition recordsPerConnection :: "BenchmarkConfig \<Rightarrow> int" where
  "recordsPerConnection config =
     (dataSizeMB config * 1024 * 1024)
       div ((minWorkers config * connectionsPerWorker config) * 75 * 1024)"

definition start_copy :: "environment \<Rightarrow> FileGenerationResult \<Rightarrow> CopyExecutionResult promise" where
  "start_copy env genResult =
     runCopyExecution env (gen_workerId genResult) (gen_connectionId genResult) (gen_filePath genResult)"

definition copy_event :: "FileGenerationResult \<Rightarrow> event" where
  "copy_event genResult =
     CopyStart (gen_workerId genResult) (gen_connectionId genResult) (gen_filePath genResult)"

text \<open>
  The batch loop of stage 2, by its index \<open>i\<close>: it starts one call per artifact of
  \<open>slice(i, i + maxConcurrentCopies)\<close>, joins them, appends their results and moves
  on; a rejected call makes the join throw. The loop is entered only with at least one
  successful generation, where \<open>maxConcurrentCopies = min(10, n)\<close> is positive.
\<close>

function copy_loop ::
  "environment \<Rightarrow> nat \<Rightarrow> FileGenerationResult list \<Rightarrow> nat
     \<Rightarrow> event list \<times> CopyExecutionResult list promise" where
  "copy_loop env maxConcurrentCopies successfulGenerations i =
     (if i < length successfulGenerations \<and> 0 < maxConcurrentCopies then
        (let batch = take maxConcurrentCopies (drop i successfulGenerations);
             started = map copy_event batch @ [AwaitBatch (length batch)]
         in case promise_all (map (start_copy env) batch) of
              Inl e \<Rightarrow> (started, Inl e)
            | Inr batchResults \<Rightarrow>
                (case copy_loop env maxConcurrentCopies successfulGenerations (i + maxConcurrentCopies) of
                   (later, Inl e) \<Rightarrow> (started @ later, Inl e)
                 | (later, Inr copyResults) \<Rightarrow> (started @ later, Inr (batchResults @ copyResults))))
      else ([], Inr []))"
  by pat_completeness auto
termination
  by (relation "measure (\<lambda>(env, m, gs, i). length gs - i)") auto

declare copy_loop.simps [simp del]

definition or_default :: "string option \<Rightarrow> string \<Rightarrow> string" where
  "or_default e d = (case e of None \<Rightarrow> d | Some s \<Rightarrow> if s = [] then d else s)"

definition aggregate ::
  "BenchmarkConfig \<Rightarrow> environment \<Rightarrow> FileGenerationResult list \<Rightarrow> FileGenerationResult list
     \<Rightarrow> CopyExecutionResult list \<Rightarrow> BenchmarkResult" where
  "aggregate config env successfulGenerations failedGenerations copyResults =
     (let successfulCopies = filter copy_success copyResults;
          failedCopies = filter (\<lambda>r. \<not> copy_success r) copyResults;
          totalRecords = foldl (\<lambda>sum r. sum + recordsInserted r) 0 successfulCopies;
          totalDataSizeMB = foldl (\<lambda>sum r. binary64 (sum + copy_dataSizeMB r)) 0 successfulCopies;
          totalSuccessCount = length successfulCopies;
          totalErrorCount = length failedCopies;
          copyDuration = binary64 (of_int (copyEndTime env - copyStartTime env) / 1000);
          avgCopyLatencyMs =
            (if length successfulCopies > 0
             then binary64 (of_int (foldl (\<lambda>sum r. sum + executionTimeMs r) 0 successfulCopies)
                              / of_nat (length successfulCopies))
             else 0);
          errors = map (\<lambda>r. or_default (gen_error r) ''Generation failed'') failedGenerations
                   @ map (\<lambda>r. or_default (copy_error r) ''COPY failed'') failedCopies
      in \<lparr> timestamp = now_iso env,
           workers = minWorkers config,
           res_connectionsPerWorker = connectionsPerWorker config,
           totalConnections = length successfulGenerations,
           res_batchSize = recordsPerConnection config,
           duration = copyDuration,
           totalRecords = totalRecords,
           totalDataSizeMB = totalDataSizeMB,
           throughputMBps = js_div totalDataSizeMB copyDuration,
           throughputRecordsPerSecond = js_div (of_int totalRecords) copyDuration,
           avgLatencyMs = avgCopyLatencyMs,
           p50LatencyMs = avgCopyLatencyMs,
           p95LatencyMs = avgCopyLatencyMs,
           p99LatencyMs = avgCopyLatencyMs,
           minLatencyMs = avgCopyLatencyMs,
           maxLatencyMs = avgCopyLatencyMs,
           successCount = totalSuccessCount,
           errorCount = totalErrorCount,
           successRate = js_div (of_nat totalSuccessCount) (of_nat (totalSuccessCount + totalErrorCount)),
           errors = take 10 errors \<rparr>)"

text \<open>
  The run: stage 1 starts all generation units and joins them; with no successful
  generation it throws. Stage 2 first fills \<open>copyPromises\<close> with one started call per
  successful generation (these promises are never awaited, so their outcomes play no
  part in the result), then runs the batch loop, aggregates, and cleans up. The first
  component of the result is the trace of events, the second the error or the
  \<open>BenchmarkResult\<close>.
\<close>

definition generationOutcome :: "BenchmarkConfig \<Rightarrow> environment \<Rightarrow> FileGenerationResult list promise" where
  "generationOutcome config env =
     promise_all (map (\<lambda>(workerId, connectionId).
                         runFileGeneration env workerId connectionId (recordsPerConnection config))
                      (generation_pairs config))"

definition runTwoStageBenchmark ::
  "BenchmarkConfig \<Rightarrow> environment \<Rightarrow> event list \<times> (run_error + BenchmarkResult)" where
  "runTwoStageBenchmark config env =
     (case generationOutcome config env of
        Inl e \<Rightarrow> ([], Inl (Rejected e))
      | Inr generationResults \<Rightarrow>
          (let successfulGenerations = filter gen_success generationResults;
               failedGenerations = filter (\<lambda>r. \<not> gen_success r) generationResults
           in if length successfulGenerations = 0 then ([], Inl NoCsvFiles)
              else
                (let copyPromises = map copy_event successfulGenerations;
                     maxConcurrentCopies = min 10 (length successfulGenerations)
                 in case copy_loop env maxConcurrentCopies successfulGenerations 0 of
                      (batched, Inl e) \<Rightarrow> (copyPromises @ batched, Inl (Rejected e))
                    | (batched, Inr copyResults) \<Rightarrow>
                        (copyPromises @ batched
                           @ [CleanupFiles (filter (\<lambda>p. p \<noteq> []) (map gen_filePath generationResults))],
                         Inr (aggregate config env successfulGenerations failedGenerations copyResults)))))"

section \<open>Observations on a run\<close>

text \<open>
  The artifact paths handed to \<open>runCopyExecution\<close>, in call order, and the number of
  calls the coordinator has issued when it first suspends on a batch join. Between the
  first call and that join the coordinator never yields, so no completion can have been
  observed: all of these calls are outstanding together.
\<close>

fun copy_invocations :: "event list \<Rightarrow> string list" where
  "copy_invocations [] = []"
| "copy_invocations (CopyStart w c p # es) = p # copy_invocations es"
| "copy_invocations (AwaitBatch n # es) = copy_invocations es"
| "copy_invocations (CleanupFiles ps # es) = copy_invocations es"

fun is_join :: "event \<Rightarrow> bool" where
  "is_join (AwaitBatch n) = True"
| "is_join (CopyStart w c p) = False"
| "is_join (CleanupFiles ps) = False"

definition dispatched_before_first_join :: "event list \<Rightarrow> nat" where
  "dispatched_before_first_join tr = length (copy_invocations (takeWhile (\<lambda>e. \<not> is_join e) tr))"

section \<open>Percentiles of the insert worker (benchmark-worker.ts)\<close>

text \<open>
  The worker sorts its latencies ascending and reads the entry at
  \<open>floor(length * percentile)\<close>; an index outside the array reads \<open>undefined\<close>,
  here \<open>None\<close>.
\<close>

definition percentile :: "int list \<Rightarrow> rat \<Rightarrow> int option" where
  "percentile measurements p =
     (let latencies = sort measurements;
          k = nat \<lfloor>of_nat (length latencies) * p\<rfloor>
      in if k < length latencies then Some (latencies ! k) else None)"

section \<open>Sample runs\<close>

text \<open>
  A family of concrete environments: one worker, whose connection \<open>c\<close> generates its
  file successfully when \<open>gen_ok c\<close> and loads it successfully when \<open>copy_ok c\<close>.
\<close>

definition sample_config :: "int \<Rightarrow> int \<Rightarrow> BenchmarkConfig" where
  "sample_config w c = \<lparr> minWorkers = w, connectionsPerWorker = c, batchSize = 100, dataSizeMB = 100 \<rparr>"

definition sample_path :: "nat \<Rightarrow> nat \<Rightarrow> string" where
  "sample_path w c =
     ''temp_csv_files/worker_'' @ [char_of (48 + w)] @ ''_conn_'' @ [char_of (48 + c)] @ ''_1700000000000.csv''"

definition sample_generation :: "(nat \<Rightarrow> bool) \<Rightarrow> nat \<Rightarrow> nat \<Rightarrow> int \<Rightarrow> FileGenerationResult promise" where
  "sample_generation gen_ok w c n =
     Inr (if gen_ok c
          then \<lparr> gen_workerId = w, gen_connectionId = c, gen_filePath = sample_path w c,
                 recordsGenerated = n, fileSizeMB = 7, generationTimeMs = 1500,
                 gen_success = True, gen_error = None \<rparr>
          else \<lparr> gen_workerId = w, gen_connectionId = c, gen_filePath = sample_path w c,
                 recordsGenerated = 0, fileSizeMB = 0, generationTimeMs = 3,
                 gen_success = False, gen_error = Some ''EACCES: permission denied'' \<rparr>)"

definition sample_copy :: "(nat \<Rightarrow> bool) \<Rightarrow> nat \<Rightarrow> nat \<Rightarrow> string \<Rightarrow> CopyExecutionResult promise" where
  "sample_copy copy_ok w c p =
     Inr (if copy_ok c
          then \<lparr> copy_workerId = w, copy_connectionId = c, copy_filePath = p,
                 recordsInserted = 100, copy_dataSizeMB = 7, executionTimeMs = 10 + 20 * int c,
                 copy_success = True, copy_error = None \<rparr>
          else \<lparr> copy_workerId = w, copy_connectionId = c, copy_filePath = p,
                 recordsInserted = 0, copy_dataSizeMB = 0, executionTimeMs = 5,
                 copy_success = False, copy_error = Some ''connection refused'' \<rparr>)"

definition sample_env :: "(nat \<Rightarrow> bool) \<Rightarrow> (nat \<Rightarrow> bool) \<Rightarrow> environment" where
  "sample_env gen_ok copy_ok =
     \<lparr> runFileGeneration = sample_generation gen_ok,
       runCopyExecution = sample_copy copy_ok,
       overallStartTime = 1000, generationStartTime = 1001, generationEndTime = 2501,
       copyStartTime = 2502, copyEndTime = 4502, overallEndTime = 4503,
       now_iso = ''2024-01-01T00:00:00.000Z'' \<rparr>"

definition every_unit :: "nat \<Rightarrow> bool" where
  "every_unit c = True"

definition units_from :: "nat \<Rightarrow> nat \<Rightarrow> bool" where
  "units_from k c = (k \<le> c)"

section \<open>Staged rows (csv-utils.ts)\<close>

record CapturedText =
  taskId :: string
  stepIndex :: int
  name :: string
  text' :: string
  targetNotFound :: bool
  detectedChange :: bool
  comparedToTextId :: "string option"
  comparedToRecording :: bool
  listId :: "string option"
  listItemIndex :: "int option"
  listPageNumber :: "int option"
  listPageItemIndex :: "int option"
  attachmentS3Key :: "string option"
  attachmentMimeType :: "string option"
  type' :: string

datatype jsvalue = JNull | JUndefined | JString string | JNumber int | JBoolean bool

definition comma :: char where "comma = CHR 0x2C"
definition dquote :: char where "dquote = CHR 0x22"
definition lf :: char where "lf = CHR 0x0A"
definition cr :: char where "cr = CHR 0x0D"

text \<open>
  \<open>String(value)\<close> on the values a record holds: strings as they are, integers in
  decimal, booleans as \<open>true\<close> and \<open>false\<close>. Strings are byte sequences.
\<close>

function string_of_nat :: "nat \<Rightarrow> string" where
  "string_of_nat n =
     (if n < 10 then [''0123456789'' ! n]
      else string_of_nat (n div 10) @ [''0123456789'' ! (n mod 10)])"
  by pat_completeness auto
termination
  by (relation "measure id") auto

declare string_of_nat.simps [simp del]

definition js_String :: "jsvalue \<Rightarrow> string" where
  "js_String v =
     (case v of
        JNull \<Rightarrow> ''null''
      | JUndefined \<Rightarrow> ''undefined''
      | JString s \<Rightarrow> s
      | JNumber n \<Rightarrow> (if n < 0 then CHR ''-'' # string_of_nat (nat (- n)) else string_of_nat (nat n))
      | JBoolean b \<Rightarrow> (if b then ''true'' else ''false''))"

definition replace_quotes :: "string \<Rightarrow> string" where
  "replace_quotes str = concat (map (\<lambda>c. if c = dquote then [dquote, dquote] else [c]) str)"

definition escapeCsvValue :: "jsvalue \<Rightarrow> string" where
  "escapeCsvValue v =
     (if v = JNull \<or> v = JUndefined then []
      else (let str = js_String v
            in if comma \<in> set str \<or> dquote \<in> set str \<or> lf \<in> set str
               then [dquote] @ replace_quotes str @ [dquote]
               else str))"

fun join :: "string \<Rightarrow> string list \<Rightarrow> string" where
  "join sep [] = []"
| "join sep [x] = x"
| "join sep (x # y # ys) = x @ sep @ join sep (y # ys)"

definition nullable :: "('a \<Rightarrow> jsvalue) \<Rightarrow> 'a option \<Rightarrow> jsvalue" where
  "nullable f x = (case x of None \<Rightarrow> JNull | Some y \<Rightarrow> f y)"

definition row_values :: "CapturedText \<Rightarrow> jsvalue list" where
  "row_values record =
     [JString (taskId record),
      JNumber (stepIndex record),
      JString (name record),
      JString (text' record),
      JBoolean (targetNotFound record),
      JBoolean (detectedChange record),
      nullable JString (comparedToTextId record),
      JBoolean (comparedToRecording record),
      nullable JString (listId record),
      nullable JNumber (listItemIndex record),
      nullable JNumber (listPageNumber record),
      nullable JNumber (listPageItemIndex record),
      nullable JString (attachmentS3Key record),
      nullable JString (attachmentMimeType record),
      JString (type' record)]"

definition convertToCsvRow :: "CapturedText \<Rightarrow> string" where
  "convertToCsvRow record = join [comma] (map escapeCsvValue (row_values record))"

text \<open>
  The reference reader of one staged row. Fields are separated by commas; a field that
  starts with a double quote runs to the matching closing quote, a doubled quote inside
  standing for one quote character; a row ends at the end of the input, at a line feed or
  at carriage return + line feed. Carriage return has a syntactic role of its own in
  RFC 4180 (it is part of the row separator and not field text), so a bare carriage
  return in an unquoted field is malformed, as is a quote inside an unquoted field or any
  text after a closing quote. Every other byte is field text. The result is the list of
  fields and the input that follows the row.
\<close>

datatype mode = Unquoted | Quoted | Closed

fun scan :: "mode \<Rightarrow> string \<Rightarrow> string list \<Rightarrow> string \<Rightarrow> (string list \<times> string) option" where
  "scan Quoted cur row [] = None"
| "scan m cur row [] = Some (row @ [cur], [])"
| "scan Quoted cur row (c # cs) =
     (if c = dquote then scan Closed cur row cs else scan Quoted (cur @ [c]) row cs)"
| "scan Closed cur row (c # cs) =
     (if c = dquote then scan Quoted (cur @ [dquote]) row cs
      else if c = comma then scan Unquoted [] (row @ [cur]) cs
      else if c = lf then Some (row @ [cur], cs)
      else if c = cr then (case cs of [] \<Rightarrow> None
                                    | d # ds \<Rightarrow> if d = lf then Some (row @ [cur], ds) else None)
      else None)"
| "scan Unquoted cur row (c # cs) =
     (if c = dquote then (if cur = [] then scan Quoted [] row cs else None)
      else if c = comma then scan Unquoted [] (row @ [cur]) cs
      else if c = lf then Some (row @ [cur], cs)
      else if c = cr then (case cs of [] \<Rightarrow> None
                                    | d # ds \<Rightarrow> if d = lf then Some (row @ [cur], ds) else None)
      else scan Unquoted (cur @ [c]) row cs)"

definition rfc4180_parse_row :: "string \<Rightarrow> (string list \<times> string) option" where
  "rfc4180_parse_row input = scan Unquoted [] [] input"

definition field_text :: "jsvalue \<Rightarrow> string" where
  "field_text v = (if v = JNull \<or> v = JUndefined then [] else js_String v)"

definition serialized_fields :: "CapturedText \<Rightarrow> string list" where
  "serialized_fields record = map field_text (row_values record)"

definition sample_record :: "string \<Rightarrow> string \<Rightarrow> CapturedText" where
  "sample_record n t =
     \<lparr> taskId = ''0b0e7a52-4c1d-4f6e-9a3b-2f1c5d8e7a90'', stepIndex = 7, name = n, text' = t,
       targetNotFound = False, detectedChange = True, comparedToTextId = None,
       comparedToRecording = False, listId = Some ''5d1c9f30-8a2b-4e7d-b6c4-1a2b3c4d5e6f'',
       listItemIndex = Some 42, listPageNumber = None, listPageItemIndex = Some 0,
       attachmentS3Key = None, attachmentMimeType = Some ''text/plain'', type' = ''innerText'' \<rparr>"

definition sample_json :: string where
  "sample_json = ''{'' @ [lf] @ ''  '' @ [dquote] @ ''a'' @ [dquote] @ '': 1,'' @ [lf]
                 @ ''  '' @ [dquote] @ ''b'' @ [dquote] @ '': '' @ [dquote] @ ''x'' @ [cr, lf] @ ''y'' @ [dquote] @ [lf] @ ''}''"

section \<open>The payload generator (data-generator.ts)\<close>














section \<open>Facts about the arithmetic\<close>








lemma binary64_samples:
  "binary64 1 = 1"
  "binary64 20 = 20"
  "binary64 (1 / 2) = 1 / 2"
  "binary64 (11 / 1000) = 3170534137668829 / 288230376151711744"
  "binary64 (28823037615171174400 / 3170534137668829) = 2498890063127273 / 274877906944"
  by code_simp+

section \<open>Facts about the coordinator\<close>

lemma promise_all_map_Inr: "promise_all (map Inr xs) = Inr xs"
  by (induction xs) simp_all

lemma promise_all_Inr_D: "promise_all ps = Inr xs \<Longrightarrow> ps = map Inr xs"
proof (induction ps arbitrary: xs)
  case Nil
  then show ?case by simp
next
  case (Cons p ps)
  then show ?case
    by (cases p) (auto split: sum.splits)
qed

lemma copy_loop_results:
  assumes "map (start_copy env) gs = map Inr crs" and "0 < m"
  shows "snd (copy_loop env m gs i) = Inr (drop i crs)"
  using assms
proof (induction env m gs i rule: copy_loop.induct)
  case (1 env m gs i)
  have len: "length crs = length gs" using "1.prems"(1) by (metis length_map)
  show ?case
  proof (cases "i < length gs")
    case False
    then show ?thesis using len by (subst copy_loop.simps) simp
  next
    case True
    have b: "map (start_copy env) (take m (drop i gs)) = map Inr (take m (drop i crs))"
      using "1.prems"(1) by (metis drop_map take_map)
    then have pa: "promise_all (map (start_copy env) (take m (drop i gs))) = Inr (take m (drop i crs))"
      by (simp add: promise_all_map_Inr)
    have ih: "snd (copy_loop env m gs (i + m)) = Inr (drop (i + m) crs)"
      using "1.IH"[OF _ refl refl pa] True "1.prems" by simp
    have "take m (drop i crs) @ drop (i + m) crs = drop i crs"
      by (metis add.commute append_take_drop_id drop_drop)
    then show ?thesis
      using True "1.prems"(2) pa ih
      by (subst copy_loop.simps) (auto simp: Let_def split: prod.splits sum.splits)
  qed
qed

lemma copy_loop_Inr_D:
  assumes "snd (copy_loop env m gs i) = Inr crs" and "0 < m"
  shows "map (start_copy env) (drop i gs) = map Inr crs"
  using assms
proof (induction env m gs i arbitrary: crs rule: copy_loop.induct)
  case (1 env m gs i)
  show ?case
  proof (cases "i < length gs")
    case False
    then show ?thesis using "1.prems"(1) by (subst (asm) copy_loop.simps) auto
  next
    case True
    from "1.prems"(1) True "1.prems"(2)
    obtain br rest where
      pa: "promise_all (map (start_copy env) (take m (drop i gs))) = Inr br" and
      rec: "snd (copy_loop env m gs (i + m)) = Inr rest" and
      crs: "crs = br @ rest"
      by (subst (asm) copy_loop.simps) (auto simp: Let_def split: prod.splits sum.splits)
    have b: "map (start_copy env) (take m (drop i gs)) = map Inr br"
      using pa by (rule promise_all_Inr_D)
    have r: "map (start_copy env) (drop (i + m) gs) = map Inr rest"
      using "1.IH"[OF _ refl refl pa rec] True "1.prems"(2) by simp
    have "drop i gs = take m (drop i gs) @ drop (i + m) gs"
      by (metis add.commute append_take_drop_id drop_drop)
    then have "map (start_copy env) (drop i gs)
                 = map (start_copy env) (take m (drop i gs)) @ map (start_copy env) (drop (i + m) gs)"
      by (metis map_append)
    then show ?thesis using b r crs by simp
  qed
qed

lemma run_completes:
  assumes go: "generationOutcome config env = Inr gs"
    and ne: "filter gen_success gs \<noteq> []"
    and cp: "map (start_copy env) (filter gen_success gs) = map Inr crs"
  shows "snd (runTwoStageBenchmark config env)
           = Inr (aggregate config env (filter gen_success gs) (filter (\<lambda>r. \<not> gen_success r) gs) crs)"
proof -
  let ?sg = "filter gen_success gs"
  have m: "0 < min 10 (length ?sg)" using ne by simp
  have "snd (copy_loop env (min 10 (length ?sg)) ?sg 0) = Inr crs"
    using copy_loop_results[OF cp m, of 0] by simp
  then show ?thesis
    using go ne by (auto simp: runTwoStageBenchmark_def Let_def split: prod.splits sum.splits)
qed

lemma run_Inr_D:
  assumes "snd (runTwoStageBenchmark config env) = Inr result"
  shows "\<exists>gs crs. generationOutcome config env = Inr gs \<and> filter gen_success gs \<noteq> []
            \<and> map (start_copy env) (filter gen_success gs) = map Inr crs
            \<and> result = aggregate config env (filter gen_success gs) (filter (\<lambda>r. \<not> gen_success r) gs) crs"
proof -
  from assms obtain gs where go: "generationOutcome config env = Inr gs"
    by (auto simp: runTwoStageBenchmark_def split: sum.splits)
  let ?sg = "filter gen_success gs"
  from assms go have ne: "?sg \<noteq> []"
    by (auto simp: runTwoStageBenchmark_def Let_def split: if_splits)
  then have m: "0 < min 10 (length ?sg)" by simp
  from assms go ne obtain crs where
    cl: "snd (copy_loop env (min 10 (length ?sg)) ?sg 0) = Inr crs" and
    r: "result = aggregate config env ?sg (filter (\<lambda>r. \<not> gen_success r) gs) crs"
    by (auto simp: runTwoStageBenchmark_def Let_def split: prod.splits sum.splits)
  have "map (start_copy env) ?sg = map Inr crs"
    using copy_loop_Inr_D[OF cl m] by simp
  with go ne r show ?thesis by blast
qed

lemma all_copies_succeed:
  assumes "\<forall>g \<in> set gs. \<exists>c. start_copy env g = Inr c \<and> copy_success c"
  shows "\<exists>crs. map (start_copy env) gs = map Inr crs \<and> filter copy_success crs = crs"
  using assms
proof (induction gs)
  case Nil
  then show ?case by simp
next
  case (Cons g gs)
  then obtain crs where crs: "map (start_copy env) gs = map Inr crs" "filter copy_success crs = crs"
    by auto
  from Cons.prems obtain c where c: "start_copy env g = Inr c" "copy_success c"
    by auto
  have "map (start_copy env) (g # gs) = map Inr (c # crs) \<and> filter copy_success (c # crs) = c # crs"
    using crs c by simp
  then show ?case by blast
qed


lemma copy_invocations_append:
  "copy_invocations (xs @ ys) = copy_invocations xs @ copy_invocations ys"
  by (induction xs rule: copy_invocations.induct) simp_all

lemma copy_invocations_events:
  "copy_invocations (map copy_event gs) = map gen_filePath gs"
  by (induction gs) (simp_all add: copy_event_def)

lemma copy_loop_invocations:
  assumes "map (start_copy env) gs = map Inr crs" and "0 < m"
  shows "copy_invocations (fst (copy_loop env m gs i)) = map gen_filePath (drop i gs)"
  using assms
proof (induction env m gs i rule: copy_loop.induct)
  case (1 env m gs i)
  show ?case
  proof (cases "i < length gs")
    case False
    then show ?thesis by (subst copy_loop.simps) simp
  next
    case True
    have b: "map (start_copy env) (take m (drop i gs)) = map Inr (take m (drop i crs))"
      using "1.prems"(1) by (metis drop_map take_map)
    then have pa: "promise_all (map (start_copy env) (take m (drop i gs))) = Inr (take m (drop i crs))"
      by (simp add: promise_all_map_Inr)
    have ih: "copy_invocations (fst (copy_loop env m gs (i + m))) = map gen_filePath (drop (i + m) gs)"
      using "1.IH"[OF _ refl refl pa] True "1.prems" by simp
    have "take m (drop i gs) @ drop (i + m) gs = drop i gs"
      by (metis add.commute append_take_drop_id drop_drop)
    then have split: "map gen_filePath (take m (drop i gs)) @ map gen_filePath (drop (i + m) gs)
                        = map gen_filePath (drop i gs)"
      by (metis map_append)
    show ?thesis
      using True "1.prems"(2) pa ih split
      by (subst copy_loop.simps)
         (auto simp: Let_def copy_invocations_append copy_invocations_events split: prod.splits sum.splits)
  qed
qed

lemma every_artifact_invoked_twice:
  assumes go: "generationOutcome config env = Inr gs"
    and ne: "filter gen_success gs \<noteq> []"
    and cp: "map (start_copy env) (filter gen_success gs) = map Inr crs"
  shows "copy_invocations (fst (runTwoStageBenchmark config env))
           = map gen_filePath (filter gen_success gs) @ map gen_filePath (filter gen_success gs)"
proof -
  let ?sg = "filter gen_success gs"
  have m: "0 < min 10 (length ?sg)" using ne by simp
  have inv: "copy_invocations (fst (copy_loop env (min 10 (length ?sg)) ?sg 0)) = map gen_filePath ?sg"
    using copy_loop_invocations[OF cp m, of 0] by simp
  have res: "snd (copy_loop env (min 10 (length ?sg)) ?sg 0) = Inr crs"
    using copy_loop_results[OF cp m, of 0] by simp
  obtain ev where cl: "copy_loop env (min 10 (length ?sg)) ?sg 0 = (ev, Inr crs)"
    using res by (cases "copy_loop env (min 10 (length ?sg)) ?sg 0") simp
  have "copy_invocations ev = map gen_filePath ?sg"
    using inv cl by simp
  then show ?thesis
    using go ne cl
    by (simp add: runTwoStageBenchmark_def Let_def copy_invocations_append copy_invocations_events)
qed

lemmas sample_simps =
  runTwoStageBenchmark_def generationOutcome_def generation_pairs_def sample_config_def
  sample_env_def sample_generation_def sample_copy_def copy_loop.simps start_copy_def
  copy_event_def aggregate_def recordsPerConnection_def or_default_def js_div_def
  every_unit_def units_from_def upt_conv_Cons Let_def

section \<open>Facts about the staged rows\<close>

lemma scan_unquoted_text:
  assumes "\<forall>c \<in> set s. c \<noteq> comma \<and> c \<noteq> dquote \<and> c \<noteq> lf \<and> c \<noteq> cr"
  shows "scan Unquoted cur row (s @ rest) = scan Unquoted (cur @ s) row rest"
  using assms by (induction s arbitrary: cur) simp_all

lemma scan_quoted_text:
  "scan Quoted cur row (replace_quotes s @ dquote # rest) = scan Closed (cur @ s) row rest"
proof (induction s arbitrary: cur)
  case Nil
  then show ?case by (simp add: replace_quotes_def)
next
  case (Cons c s)
  show ?case
  proof (cases "c = dquote")
    case True
    have "replace_quotes (dquote # s) = dquote # dquote # replace_quotes s"
      by (simp add: replace_quotes_def)
    then show ?thesis using True Cons.IH[of "cur @ [dquote]"] by simp
  next
    case False
    then have "replace_quotes (c # s) = c # replace_quotes s"
      by (simp add: replace_quotes_def)
    then show ?thesis using False Cons.IH[of "cur @ [c]"] by simp
  qed
qed

lemma special_chars_distinct:
  "comma \<noteq> dquote" "comma \<noteq> lf" "comma \<noteq> cr" "dquote \<noteq> lf" "dquote \<noteq> cr" "lf \<noteq> cr"
  by (simp_all add: comma_def dquote_def lf_def cr_def)

lemma scan_after_field:
  assumes "rest = [] \<or> hd rest = comma \<or> hd rest = lf" and "m = Unquoted \<or> m = Closed"
  shows "scan m cur row rest =
           (case rest of [] \<Rightarrow> Some (row @ [cur], [])
                       | c # cs \<Rightarrow> if c = comma then scan Unquoted [] (row @ [cur]) cs
                                  else Some (row @ [cur], cs))"
  using assms special_chars_distinct by (cases rest) auto

lemma scan_field:
  assumes ok: "cr \<in> set (field_text v) \<longrightarrow>
                 comma \<in> set (field_text v) \<or> dquote \<in> set (field_text v) \<or> lf \<in> set (field_text v)"
    and rest: "rest = [] \<or> hd rest = comma \<or> hd rest = lf"
  shows "scan Unquoted [] row (escapeCsvValue v @ rest) =
           (case rest of [] \<Rightarrow> Some (row @ [field_text v], [])
                       | c # cs \<Rightarrow> if c = comma then scan Unquoted [] (row @ [field_text v]) cs
                                  else Some (row @ [field_text v], cs))"
proof -
  let ?s = "field_text v"
  show ?thesis
  proof (cases "comma \<in> set ?s \<or> dquote \<in> set ?s \<or> lf \<in> set ?s")
    case True
    then have nn: "\<not> (v = JNull \<or> v = JUndefined)"
      by (auto simp: field_text_def)
    then have e: "escapeCsvValue v = dquote # replace_quotes ?s @ [dquote]"
      using True by (simp add: escapeCsvValue_def field_text_def Let_def)
    have "scan Unquoted [] row (escapeCsvValue v @ rest) = scan Quoted [] row (replace_quotes ?s @ dquote # rest)"
      by (simp add: e)
    also have "\<dots> = scan Closed ?s row rest"
      using scan_quoted_text[of "[]" row ?s rest] by simp
    finally show ?thesis
      using scan_after_field[OF rest, of Closed ?s row] by simp
  next
    case False
    then have e: "escapeCsvValue v = ?s"
      by (auto simp: escapeCsvValue_def field_text_def Let_def)
    have plain: "\<forall>c \<in> set ?s. c \<noteq> comma \<and> c \<noteq> dquote \<and> c \<noteq> lf \<and> c \<noteq> cr"
      using False ok by auto
    have "scan Unquoted [] row (escapeCsvValue v @ rest) = scan Unquoted ?s row rest"
      using scan_unquoted_text[OF plain, of "[]" row rest] by (simp add: e)
    then show ?thesis
      using scan_after_field[OF rest, of Unquoted ?s row] by simp
  qed
qed

lemma scan_row:
  assumes "vs \<noteq> []"
    and "\<forall>v \<in> set vs. cr \<in> set (field_text v) \<longrightarrow>
                 comma \<in> set (field_text v) \<or> dquote \<in> set (field_text v) \<or> lf \<in> set (field_text v)"
    and "rest = [] \<or> hd rest = lf"
  shows "scan Unquoted [] row (join [comma] (map escapeCsvValue vs) @ rest)
           = Some (row @ map field_text vs, tl rest)"
  using assms
proof (induction vs arbitrary: row rule: list_nonempty_induct)
  case (single v)
  have r: "rest = [] \<or> hd rest = comma \<or> hd rest = lf" using single.prems(2) by blast
  have ok: "cr \<in> set (field_text v) \<longrightarrow>
                 comma \<in> set (field_text v) \<or> dquote \<in> set (field_text v) \<or> lf \<in> set (field_text v)"
    using single.prems(1) by simp
  show ?case
    using scan_field[OF ok r, of row] single.prems(2) special_chars_distinct
    by (cases rest) auto
next
  case (cons v vs)
  then obtain w ws where vs: "vs = w # ws" by (cases vs) auto
  have ok: "cr \<in> set (field_text v) \<longrightarrow>
                 comma \<in> set (field_text v) \<or> dquote \<in> set (field_text v) \<or> lf \<in> set (field_text v)"
    using cons.prems(1) by simp
  let ?more = "comma # (join [comma] (map escapeCsvValue vs) @ rest)"
  have j: "join [comma] (map escapeCsvValue (v # vs)) @ rest = escapeCsvValue v @ ?more"
    by (simp add: vs)
  have "scan Unquoted [] row (escapeCsvValue v @ ?more)
          = scan Unquoted [] (row @ [field_text v]) (join [comma] (map escapeCsvValue vs) @ rest)"
    using scan_field[OF ok, of ?more row] by simp
  also have "\<dots> = Some ((row @ [field_text v]) @ map field_text vs, tl rest)"
    using cons.IH[of "row @ [field_text v]"] cons.prems by simp
  finally have "scan Unquoted [] row (escapeCsvValue v @ ?more)
                  = Some (row @ map field_text (v # vs), tl rest)"
    by simp
  then show ?case unfolding j .
qed

lemmas csv_simps =
  serialized_fields_def row_values_def field_text_def js_String_def nullable_def sample_record_def
  sample_json_def string_of_nat.simps comma_def dquote_def lf_def cr_def

section \<open>Facts about the payload generator\<close>








section \<open>Claims about the coordinator\<close>

text \<open>
  C1 (each successfully generated artifact is handed to \<open>runCopyExecution\<close> exactly once).
  The coordinator first pushes one \<open>runCopyExecution\<close> call per successful generation
  into \<open>copyPromises\<close>, which it never reads again, and then calls
  \<open>runCopyExecution\<close> a second time for the same artifact inside the batch loop. In the
  run with a single generation unit, which succeeds, the one staged file is the subject of
  two calls.
\<close>

theorem each_artifact_loaded_twice:
  "copy_invocations (fst (runTwoStageBenchmark (sample_config 1 1) (sample_env every_unit every_unit)))
     = [sample_path 0 0, sample_path 0 0]"
  by (simp add: sample_simps)

text \<open>
  C2 (at most \<open>maxConcurrentCopies = min(10, successes)\<close> loader calls are in flight).
  With three successful generations the cap is 3, yet six calls have been issued when the
  coordinator first waits for a batch: three from the unused \<open>copyPromises\<close> loop and
  three from the first batch.
\<close>

theorem copies_dispatched_beyond_cap:
  "dispatched_before_first_join
     (fst (runTwoStageBenchmark (sample_config 1 3) (sample_env every_unit every_unit))) = 6
   \<and> min 10 (length (filter gen_success
        (projr (generationOutcome (sample_config 1 3) (sample_env every_unit every_unit))))) = 3"
  by (simp add: sample_simps dispatched_before_first_join_def)

text \<open>
  C4 (the result's p50/p95/p99 are read from the sorted latencies at \<open>floor(n * p)\<close>).
  The two-stage result stores the mean copy latency in all three fields. With two loads
  that took 10 ms and 30 ms the fields hold 20, while the worker's sort-and-index
  convention gives 30 for each of the three percentiles.
\<close>

theorem reported_percentiles_are_the_mean:
  "map_sum id p50LatencyMs (snd (runTwoStageBenchmark (sample_config 1 2) (sample_env every_unit every_unit))) = Inr 20
   \<and> map_sum id p95LatencyMs (snd (runTwoStageBenchmark (sample_config 1 2) (sample_env every_unit every_unit))) = Inr 20
   \<and> map_sum id p99LatencyMs (snd (runTwoStageBenchmark (sample_config 1 2) (sample_env every_unit every_unit))) = Inr 20
   \<and> percentile [10, 30] (1 / 2) = Some 30
   \<and> percentile [10, 30] (95 / 100) = Some 30
   \<and> percentile [10, 30] (99 / 100) = Some 30"
proof -
  have f: "\<lfloor>19 / 10 :: rat\<rfloor> = 1" "\<lfloor>99 / 50 :: rat\<rfloor> = 1"
    by (rule floor_unique; simp)+
  show ?thesis
    by (simp add: sample_simps percentile_def f binary64_samples)
qed

text \<open>
  C8 (zero successful generations is fatal before any load). When every generation unit
  reports failure the run ends with the error "No CSV files were generated successfully":
  the trace is empty, so no \<open>runCopyExecution\<close> call was made and no batch was
  joined, and no result is returned.
\<close>

theorem zero_success_is_fatal:
  assumes "generationOutcome config env = Inr generationResults"
    and "\<forall>r \<in> set generationResults. \<not> gen_success r"
  shows "runTwoStageBenchmark config env = ([], Inl NoCsvFiles)"
proof -
  have "filter gen_success generationResults = []"
    using assms(2) by (simp add: filter_empty_conv)
  then show ?thesis
    using assms(1) by (simp add: runTwoStageBenchmark_def)
qed

theorem zero_success_is_fatal_witness:
  "generationOutcome (sample_config 1 2) (sample_env (units_from 2) every_unit)
     = Inr [projr (sample_generation (units_from 2) 0 0 682), projr (sample_generation (units_from 2) 0 1 682)]
   \<and> runTwoStageBenchmark (sample_config 1 2) (sample_env (units_from 2) every_unit) = ([], Inl NoCsvFiles)"
proof -
  have go: "generationOutcome (sample_config 1 2) (sample_env (units_from 2) every_unit)
     = Inr [projr (sample_generation (units_from 2) 0 0 682), projr (sample_generation (units_from 2) 0 1 682)]"
    by (simp add: sample_simps)
  have fl: "\<forall>r \<in> set [projr (sample_generation (units_from 2) 0 0 682), projr (sample_generation (units_from 2) 0 1 682)].
              \<not> gen_success r"
    by (simp add: sample_simps)
  show ?thesis using go zero_success_is_fatal[OF go fl] by simp
qed

text \<open>
  C10 (the result's \<open>totalConnections\<close> is the number of successful generations and its
  \<open>batchSize\<close> is the computed records per connection). Whenever a result is returned,
  \<open>totalConnections\<close> counts the successful generation outcomes and \<open>batchSize\<close>
  holds \<open>recordsPerConnection\<close>; the configured \<open>batchSize\<close> and the product
  \<open>workers * connectionsPerWorker\<close> are not consulted for these fields.
\<close>

theorem result_totalConnections_batchSize:
  assumes "generationOutcome config env = Inr generationResults"
    and "snd (runTwoStageBenchmark config env) = Inr result"
  shows "totalConnections result = length (filter gen_success generationResults)
         \<and> res_batchSize result = recordsPerConnection config"
  using run_Inr_D[OF assms(2)] assms(1) by (auto simp: aggregate_def Let_def)

theorem result_totalConnections_batchSize_witness:
  "generationOutcome (sample_config 1 3) (sample_env (units_from 1) every_unit)
     = Inr (map (\<lambda>c. projr (sample_generation (units_from 1) 0 c 455)) [0, 1, 2])
   \<and> \<not> isl (snd (runTwoStageBenchmark (sample_config 1 3) (sample_env (units_from 1) every_unit)))
   \<and> totalConnections (projr (snd (runTwoStageBenchmark (sample_config 1 3) (sample_env (units_from 1) every_unit)))) = 2
   \<and> res_batchSize (projr (snd (runTwoStageBenchmark (sample_config 1 3) (sample_env (units_from 1) every_unit)))) = 455
   \<and> minWorkers (sample_config 1 3) * connectionsPerWorker (sample_config 1 3) = 3
   \<and> batchSize (sample_config 1 3) = 100"
proof -
  let ?run = "runTwoStageBenchmark (sample_config 1 3) (sample_env (units_from 1) every_unit)"
  have go: "generationOutcome (sample_config 1 3) (sample_env (units_from 1) every_unit)
     = Inr (map (\<lambda>c. projr (sample_generation (units_from 1) 0 c 455)) [0, 1, 2])"
    by (simp add: sample_simps numeral_2_eq_2)
  have isr: "\<not> isl (snd ?run)"
    by (simp add: sample_simps)
  then have r: "snd ?run = Inr (projr (snd ?run))"
    by (cases "snd ?run") simp_all
  have rpc: "recordsPerConnection (sample_config 1 3) = 455"
    by (simp add: sample_simps)
  have n: "length (filter gen_success (map (\<lambda>c. projr (sample_generation (units_from 1) 0 c 455)) [0, 1, 2])) = 2"
    by (simp add: sample_simps)
  show ?thesis
    using result_totalConnections_batchSize[OF go r] go isr rpc n
    by (simp add: sample_config_def)
qed

text \<open>
  C3 (ten generation units, three fail, every load succeeds: \<open>errorCount \<ge> 3\<close>,
  \<open>successCount = 7\<close>, \<open>successRate = 7/10\<close>). As stated this fails: the
  result's \<open>errorCount\<close> is the number of failed loads and the denominator of
  \<open>successRate\<close> is the number of loads, so the run below reports 0 errors and a
  success rate of 1.
\<close>

theorem generation_failures_not_in_errorCount:
  "map_sum id successCount (snd (runTwoStageBenchmark (sample_config 1 10) (sample_env (units_from 3) every_unit))) = Inr 7
   \<and> map_sum id errorCount (snd (runTwoStageBenchmark (sample_config 1 10) (sample_env (units_from 3) every_unit))) = Inr 0
   \<and> map_sum id successRate (snd (runTwoStageBenchmark (sample_config 1 10) (sample_env (units_from 3) every_unit))) = Inr (Fin 1)"
  by (simp add: sample_simps binary64_samples)

text \<open>
  C3, amended. For every run in which all ten generation units resolve, exactly three of
  them reporting failure (\<open>success = false\<close>), and every load of a surviving artifact
  succeeds: seven generations succeeded, stage 2 runs on exactly their seven artifacts
  (the paths handed to \<open>runCopyExecution\<close> are the paths of the successful generations
  and no others), and a result is returned with \<open>totalConnections = 7\<close>,
  \<open>successCount = 7\<close>, \<open>errorCount = 0\<close> and \<open>successRate = 1\<close>; its
  \<open>errors\<close> list consists of exactly the messages of the three failed generations.
\<close>

theorem partial_generation_failure:
  assumes go: "generationOutcome config env = Inr generationResults"
    and ten: "length generationResults = 10"
    and three: "length (filter (\<lambda>r. \<not> gen_success r) generationResults) = 3"
    and loads: "\<forall>g \<in> set (filter gen_success generationResults). \<exists>c. start_copy env g = Inr c \<and> copy_success c"
  shows "length (filter gen_success generationResults) = 7
         \<and> set (copy_invocations (fst (runTwoStageBenchmark config env)))
             = set (map gen_filePath (filter gen_success generationResults))
         \<and> (\<exists>result. snd (runTwoStageBenchmark config env) = Inr result
               \<and> totalConnections result = 7 \<and> successCount result = 7 \<and> errorCount result = 0
               \<and> successRate result = Fin 1
               \<and> errors result
                   = map (\<lambda>r. or_default (gen_error r) ''Generation failed'')
                         (filter (\<lambda>r. \<not> gen_success r) generationResults)
               \<and> length (errors result) = 3)"
proof -
  let ?sg = "filter gen_success generationResults"
  let ?fg = "filter (\<lambda>r. \<not> gen_success r) generationResults"
  have "length ?sg + length ?fg = length generationResults"
    by (rule sum_length_filter_compl)
  then have seven: "length ?sg = 7" using ten three by simp
  then have ne: "?sg \<noteq> []" by auto
  from all_copies_succeed[OF loads] obtain crs where
    cp: "map (start_copy env) ?sg = map Inr crs" and ok: "filter copy_success crs = crs"
    by blast
  have inv: "set (copy_invocations (fst (runTwoStageBenchmark config env))) = set (map gen_filePath ?sg)"
    using every_artifact_invoked_twice[OF go ne cp] by simp
  have len: "length crs = 7" using cp seven by (metis length_map)
  have none: "filter (\<lambda>r. \<not> copy_success r) crs = []"
    using ok by (metis filter_False filter_id_conv)
  let ?r = "aggregate config env ?sg ?fg crs"
  have run: "snd (runTwoStageBenchmark config env) = Inr ?r"
    by (rule run_completes[OF go ne cp])
  have tc: "totalConnections ?r = 7"
    using seven by (simp add: aggregate_def Let_def)
  have sc: "successCount ?r = 7"
    using ok len by (simp add: aggregate_def Let_def)
  have ec: "errorCount ?r = 0"
    using none by (simp add: aggregate_def Let_def)
  have sr: "successRate ?r = Fin 1"
    using ok none len by (auto simp: aggregate_def Let_def js_div_def binary64_samples)
  have er: "errors ?r = map (\<lambda>r. or_default (gen_error r) ''Generation failed'') ?fg"
    using none three by (simp add: aggregate_def Let_def)
  have el: "length (errors ?r) = 3"
    using er three by simp
  from seven inv run tc sc ec sr er el show ?thesis by blast
qed

theorem partial_generation_failure_witness:
  "generationOutcome (sample_config 1 10) (sample_env (units_from 3) every_unit)
     = Inr (projr (generationOutcome (sample_config 1 10) (sample_env (units_from 3) every_unit)))
   \<and> length (projr (generationOutcome (sample_config 1 10) (sample_env (units_from 3) every_unit))) = 10
   \<and> length (filter (\<lambda>r. \<not> gen_success r)
         (projr (generationOutcome (sample_config 1 10) (sample_env (units_from 3) every_unit)))) = 3
   \<and> map gen_filePath (filter gen_success
         (projr (generationOutcome (sample_config 1 10) (sample_env (units_from 3) every_unit))))
       = [sample_path 0 3, sample_path 0 4, sample_path 0 5, sample_path 0 6, sample_path 0 7,
          sample_path 0 8, sample_path 0 9]
   \<and> set (copy_invocations (fst (runTwoStageBenchmark (sample_config 1 10) (sample_env (units_from 3) every_unit))))
       = set [sample_path 0 3, sample_path 0 4, sample_path 0 5, sample_path 0 6, sample_path 0 7,
              sample_path 0 8, sample_path 0 9]
   \<and> (\<exists>result. snd (runTwoStageBenchmark (sample_config 1 10) (sample_env (units_from 3) every_unit)) = Inr result
           \<and> totalConnections result = 7 \<and> successCount result = 7 \<and> errorCount result = 0
           \<and> successRate result = Fin 1
           \<and> errors result
               = [''EACCES: permission denied'', ''EACCES: permission denied'', ''EACCES: permission denied''])"
proof -
  let ?cfg = "sample_config 1 10"
  let ?env = "sample_env (units_from 3) every_unit"
  let ?gs = "projr (generationOutcome ?cfg ?env)"
  have "\<not> isl (generationOutcome ?cfg ?env)"
    by (simp add: sample_simps)
  then have go: "generationOutcome ?cfg ?env = Inr ?gs"
    by (cases "generationOutcome ?cfg ?env") simp_all
  have ten: "length ?gs = 10"
    by (simp add: sample_simps)
  have three: "length (filter (\<lambda>r. \<not> gen_success r) ?gs) = 3"
    by (simp add: sample_simps)
  have loads: "\<forall>g \<in> set (filter gen_success ?gs). \<exists>c. start_copy ?env g = Inr c \<and> copy_success c"
    by (simp add: sample_simps)
  have paths: "map gen_filePath (filter gen_success ?gs)
       = [sample_path 0 3, sample_path 0 4, sample_path 0 5, sample_path 0 6, sample_path 0 7,
          sample_path 0 8, sample_path 0 9]"
    by (simp add: sample_simps eval_nat_numeral)
  have msgs: "map (\<lambda>r. or_default (gen_error r) ''Generation failed'') (filter (\<lambda>r. \<not> gen_success r) ?gs)
       = [''EACCES: permission denied'', ''EACCES: permission denied'', ''EACCES: permission denied'']"
    by (simp add: sample_simps)
  from partial_generation_failure[OF go ten three loads] show ?thesis
    unfolding paths msgs using go ten three paths by blast
qed



text \<open>
  C9 (the \<open>errors\<close> field holds the first ten distinct error strings). As stated this
  fails: no duplicates are removed. Two generation units that fail with the same message
  leave that message twice in the list.
\<close>

theorem errors_keep_duplicates:
  "map_sum id errors (snd (runTwoStageBenchmark (sample_config 1 3) (sample_env (units_from 2) every_unit)))
     = Inr [''EACCES: permission denied'', ''EACCES: permission denied'']
   \<and> \<not> distinct [''EACCES: permission denied'', ''EACCES: permission denied'']"
  by (simp add: sample_simps)

text \<open>
  C9, amended. Whenever all generation promises resolve, at least one generation
  succeeds and all load promises resolve, a result is returned (also when some of the
  generations or loads report failure); its \<open>errors\<close> field is the first ten entries
  of the messages of the failed generations, in order, followed by the messages of the
  failed loads, in order, duplicates kept, a missing or empty message replaced by
  "Generation failed" or "COPY failed"; and its \<open>successRate\<close> is the double
  quotient of the number of successful loads by the number of all loads.
\<close>

theorem errors_first_ten_in_order:
  assumes go: "generationOutcome config env = Inr generationResults"
    and ne: "filter gen_success generationResults \<noteq> []"
    and cp: "map (start_copy env) (filter gen_success generationResults) = map Inr copyResults"
  shows "\<exists>result. snd (runTwoStageBenchmark config env) = Inr result
           \<and> errors result
               = take 10
                   (map (\<lambda>r. or_default (gen_error r) ''Generation failed'')
                        (filter (\<lambda>r. \<not> gen_success r) generationResults)
                    @ map (\<lambda>r. or_default (copy_error r) ''COPY failed'')
                          (filter (\<lambda>r. \<not> copy_success r) copyResults))
           \<and> length (errors result) \<le> 10
           \<and> successRate result
               = Fin (binary64 (of_nat (length (filter copy_success copyResults)) / of_nat (length copyResults)))"
proof -
  let ?sg = "filter gen_success generationResults"
  let ?fg = "filter (\<lambda>r. \<not> gen_success r) generationResults"
  let ?r = "aggregate config env ?sg ?fg copyResults"
  have run: "snd (runTwoStageBenchmark config env) = Inr ?r"
    by (rule run_completes[OF go ne cp])
  have "length copyResults = length ?sg"
    using cp by (metis length_map)
  then have pos: "copyResults \<noteq> []" using ne by auto
  have split: "length (filter copy_success copyResults) + length (filter (\<lambda>r. \<not> copy_success r) copyResults)
                 = length copyResults"
    by (rule sum_length_filter_compl)
  have e: "errors ?r = take 10
                   (map (\<lambda>r. or_default (gen_error r) ''Generation failed'') ?fg
                    @ map (\<lambda>r. or_default (copy_error r) ''COPY failed'')
                          (filter (\<lambda>r. \<not> copy_success r) copyResults))"
    by (simp add: aggregate_def Let_def)
  then have l: "length (errors ?r) \<le> 10" by simp
  have "successRate ?r
          = js_div (of_nat (length (filter copy_success copyResults)))
                   (of_nat (length (filter copy_success copyResults)
                            + length (filter (\<lambda>r. \<not> copy_success r) copyResults)))"
    by (simp add: aggregate_def Let_def)
  then have s: "successRate ?r
          = Fin (binary64 (of_nat (length (filter copy_success copyResults)) / of_nat (length copyResults)))"
    using pos by (simp only: split) (simp add: js_div_def)
  from run e l s show ?thesis by blast
qed

theorem errors_first_ten_in_order_witness:
  "generationOutcome (sample_config 1 3) (sample_env (units_from 1) (units_from 2))
     = Inr (projr (generationOutcome (sample_config 1 3) (sample_env (units_from 1) (units_from 2))))
   \<and> filter gen_success (projr (generationOutcome (sample_config 1 3) (sample_env (units_from 1) (units_from 2)))) \<noteq> []
   \<and> map (start_copy (sample_env (units_from 1) (units_from 2)))
          (filter gen_success (projr (generationOutcome (sample_config 1 3) (sample_env (units_from 1) (units_from 2)))))
       = map Inr [projr (sample_copy (units_from 2) 0 1 (sample_path 0 1)),
                  projr (sample_copy (units_from 2) 0 2 (sample_path 0 2))]
   \<and> (\<exists>result. snd (runTwoStageBenchmark (sample_config 1 3) (sample_env (units_from 1) (units_from 2))) = Inr result
         \<and> errors result = [''EACCES: permission denied'', ''connection refused'']
         \<and> successRate result = Fin (1 / 2))"
proof -
  let ?cfg = "sample_config 1 3"
  let ?env = "sample_env (units_from 1) (units_from 2)"
  let ?gs = "projr (generationOutcome ?cfg ?env)"
  let ?crs = "[projr (sample_copy (units_from 2) 0 1 (sample_path 0 1)),
               projr (sample_copy (units_from 2) 0 2 (sample_path 0 2))]"
  have "\<not> isl (generationOutcome ?cfg ?env)"
    by (simp add: sample_simps)
  then have go: "generationOutcome ?cfg ?env = Inr ?gs"
    by (cases "generationOutcome ?cfg ?env") simp_all
  have ne: "filter gen_success ?gs \<noteq> []"
    by (simp add: sample_simps)
  have cp: "map (start_copy ?env) (filter gen_success ?gs) = map Inr ?crs"
    by (simp add: sample_simps numeral_2_eq_2)
  have f: "filter (\<lambda>r. \<not> gen_success r) ?gs = [projr (sample_generation (units_from 1) 0 0 455)]"
    by (simp add: sample_simps)
  have c: "filter (\<lambda>r. \<not> copy_success r) ?crs = [projr (sample_copy (units_from 2) 0 1 (sample_path 0 1))]"
      "filter copy_success ?crs = [projr (sample_copy (units_from 2) 0 2 (sample_path 0 2))]"
    by (simp_all add: sample_simps)
  from errors_first_ten_in_order[OF go ne cp] obtain result where
    r: "snd (runTwoStageBenchmark ?cfg ?env) = Inr result" and
    e: "errors result
               = take 10
                   (map (\<lambda>r. or_default (gen_error r) ''Generation failed'')
                        (filter (\<lambda>r. \<not> gen_success r) ?gs)
                    @ map (\<lambda>r. or_default (copy_error r) ''COPY failed'')
                          (filter (\<lambda>r. \<not> copy_success r) ?crs))" and
    s: "successRate result = Fin (binary64 (of_nat (length (filter copy_success ?crs)) / of_nat (length ?crs)))"
    by blast
  have e': "errors result = [''EACCES: permission denied'', ''connection refused'']"
    unfolding e f c by (simp add: sample_simps)
  have s': "successRate result = Fin (1 / 2)"
    unfolding s c by (simp add: binary64_samples)
  show ?thesis using go ne cp r e' s' by blast
qed

section \<open>Claims about the staged rows\<close>

text \<open>
  C7 (a row written by \<open>convertToCsvRow\<close> is read back field for field, for every
  record). As stated this fails: \<open>escapeCsvValue\<close> quotes a field only when it contains
  a comma, a double quote or a line feed, so a field whose only special character is a
  carriage return is written bare, and the reader rejects the row.
\<close>

theorem bare_carriage_return_not_quoted:
  "rfc4180_parse_row (convertToCsvRow (sample_record (''a'' @ [cr] @ ''b'') ''x'')) = None
   \<and> serialized_fields (sample_record (''a'' @ [cr] @ ''b'') ''x'') ! 2 = ''a'' @ [cr] @ ''b''"
  by (simp add: csv_simps rfc4180_parse_row_def convertToCsvRow_def escapeCsvValue_def Let_def)

text \<open>
  C7, amended. For every record in which a field contains a carriage return only together
  with a comma, a double quote or a line feed (every generated record is one: its text is
  printed JSON and its other fields are identifiers, numbers and booleans), the row
  written by \<open>convertToCsvRow\<close> is read back as exactly the record's 15 serialized
  fields, both on its own and when followed by the writer's line feed and further input.
\<close>

theorem csv_row_round_trip:
  assumes "\<forall>f \<in> set (serialized_fields record).
             cr \<in> set f \<longrightarrow> comma \<in> set f \<or> dquote \<in> set f \<or> lf \<in> set f"
  shows "rfc4180_parse_row (convertToCsvRow record) = Some (serialized_fields record, [])
         \<and> rfc4180_parse_row (convertToCsvRow record @ [lf] @ rest) = Some (serialized_fields record, rest)
         \<and> length (serialized_fields record) = 15"
proof -
  have ne: "row_values record \<noteq> []"
    by (simp add: row_values_def)
  have ok: "\<forall>v \<in> set (row_values record). cr \<in> set (field_text v) \<longrightarrow>
                 comma \<in> set (field_text v) \<or> dquote \<in> set (field_text v) \<or> lf \<in> set (field_text v)"
    using assms by (simp add: serialized_fields_def)
  have a: "rfc4180_parse_row (convertToCsvRow record) = Some (serialized_fields record, [])"
    using scan_row[OF ne ok, of "[]" "[]"]
    by (simp add: rfc4180_parse_row_def convertToCsvRow_def serialized_fields_def)
  have b: "rfc4180_parse_row (convertToCsvRow record @ [lf] @ rest) = Some (serialized_fields record, rest)"
    using scan_row[OF ne ok, of "lf # rest" "[]"]
    by (simp add: rfc4180_parse_row_def convertToCsvRow_def serialized_fields_def)
  have c: "length (serialized_fields record) = 15"
    by (simp add: serialized_fields_def row_values_def)
  from a b c show ?thesis by blast
qed

theorem csv_row_round_trip_witness:
  "serialized_fields (sample_record ''field_12'' sample_json)
     = [''0b0e7a52-4c1d-4f6e-9a3b-2f1c5d8e7a90'', ''7'', ''field_12'', sample_json, ''false'', ''true'', [],
        ''false'', ''5d1c9f30-8a2b-4e7d-b6c4-1a2b3c4d5e6f'', ''42'', [], ''0'', [], ''text/plain'', ''innerText'']
   \<and> comma \<in> set sample_json \<and> dquote \<in> set sample_json \<and> lf \<in> set sample_json \<and> cr \<in> set sample_json
   \<and> rfc4180_parse_row (convertToCsvRow (sample_record ''field_12'' sample_json))
       = Some (serialized_fields (sample_record ''field_12'' sample_json), [])
   \<and> rfc4180_parse_row (convertToCsvRow (sample_record ''field_12'' sample_json) @ [lf] @ ''next'')
       = Some (serialized_fields (sample_record ''field_12'' sample_json), ''next'')"
proof -
  let ?r = "sample_record ''field_12'' sample_json"
  have f: "serialized_fields ?r
     = [''0b0e7a52-4c1d-4f6e-9a3b-2f1c5d8e7a90'', ''7'', ''field_12'', sample_json, ''false'', ''true'', [],
        ''false'', ''5d1c9f30-8a2b-4e7d-b6c4-1a2b3c4d5e6f'', ''42'', [], ''0'', [], ''text/plain'', ''innerText'']"
    by (simp add: csv_simps)
  have j: "comma \<in> set sample_json" "dquote \<in> set sample_json" "lf \<in> set sample_json" "cr \<in> set sample_json"
    by (simp_all add: sample_json_def comma_def dquote_def lf_def cr_def)
  have h: "\<forall>f \<in> set (serialized_fields ?r). cr \<in> set f \<longrightarrow> comma \<in> set f \<or> dquote \<in> set f \<or> lf \<in> set f"
    unfolding f using j by (simp add: comma_def dquote_def lf_def cr_def)
  show ?thesis
    using csv_row_round_trip[OF h, of "''next''"] f j by simp
qed

section \<open>Claims about the payload generator\<close>




end
